theory Spec2Isabelle
  imports Complex_Main "HOL-Library.Sublist"
begin

section \<open>Python values and exceptions\<close>

text \<open>
  The values that travel through \<^verbatim>\<open>dict[str, Any]\<close> in the package: what
  \<^verbatim>\<open>json.loads\<close> can produce and what the agent passes as keyword arguments.
  A dict is an association list in insertion order, read with \<open>map_of\<close>.
  Equality of the model is structural, which is finer than Python's \<^verbatim>\<open>==\<close>
  (that identifies \<^verbatim>\<open>1\<close>, \<^verbatim>\<open>1.0\<close> and \<^verbatim>\<open>True\<close> and ignores the order of
  a dict), so an equation proved here holds in Python as well.
\<close>

datatype pyval =
    PNone
  | PBool bool
  | PInt int
  | PFloat real
  | PStr string
  | PList "pyval list"
  | PDict "(string \<times> pyval) list"

type_synonym pydict = "(string \<times> pyval) list"

text \<open>
  The exceptions of \<^verbatim>\<open>exceptions.py\<close> that the modelled code raises, the
  built-in ones it can run into, and \<open>DriverError\<close> for whatever the page
  automation driver raises by itself.
\<close>

datatype exn =
    ElementNotFoundError string "string list"
  | BrowserNotStartedError
  | RecordingError string
  | KeyError string
  | TypeError
  | ValueError
  | DriverError string

section \<open>recorder.py\<close>

subsection \<open>RecordedAction\<close>

text \<open>
  The dataclass annotates its fields as \<^verbatim>\<open>str\<close>, \<^verbatim>\<open>dict[str, Any]\<close> and
  \<^verbatim>\<open>float\<close>, but neither the constructor nor \<^verbatim>\<open>from_dict\<close> checks them, so
  the fields hold arbitrary values.
\<close>

record RecordedAction =
  action :: pyval
  args :: pyval
  timestamp :: pyval

definition to_dict :: "RecordedAction \<Rightarrow> pydict" where
  "to_dict a = [(''action'', action a), (''args'', args a), (''timestamp'', timestamp a)]"

text \<open>\<^verbatim>\<open>d.get(key, default)\<close>\<close>

definition dict_get :: "pydict \<Rightarrow> string \<Rightarrow> pyval \<Rightarrow> pyval" where
  "dict_get d k dflt = (case map_of d k of None \<Rightarrow> dflt | Some v \<Rightarrow> v)"

text \<open>\<^verbatim>\<open>d["action"]\<close> raises \<^verbatim>\<open>KeyError\<close> when the key is missing.\<close>

definition from_dict :: "pydict \<Rightarrow> exn + RecordedAction" where
  "from_dict d =
     (case map_of d ''action'' of
        None \<Rightarrow> Inl (KeyError ''action'')
      | Some a \<Rightarrow>
          Inr \<lparr>action = a,
               args = dict_get d ''args'' (PDict []),
               timestamp = dict_get d ''timestamp'' (PFloat 0)\<rparr>)"

subsection \<open>ActionRecorder\<close>

text \<open>
  The three private fields of the recorder. \<^verbatim>\<open>time.time()\<close> is an input of the
  model: \<open>recorder_start\<close> and \<open>recorder_record\<close> take the clock reading as
  the argument \<open>now\<close>.
\<close>

record ActionRecorder =
  recording :: bool
  actions :: "RecordedAction list"
  start_time :: real

definition recorder_init :: ActionRecorder where
  "recorder_init = \<lparr>recording = False, actions = [], start_time = 0\<rparr>"

definition recorder_start :: "ActionRecorder \<Rightarrow> real \<Rightarrow> ActionRecorder" where
  "recorder_start r now = r\<lparr>recording := True, actions := [], start_time := now\<rparr>"

text \<open>\<open>recorder_stop\<close> returns the new recorder state and the returned list.\<close>

definition recorder_stop :: "ActionRecorder \<Rightarrow> ActionRecorder \<times> RecordedAction list" where
  "recorder_stop r = (r\<lparr>recording := False\<rparr>, actions r)"

definition recorder_record :: "ActionRecorder \<Rightarrow> real \<Rightarrow> string \<Rightarrow> pydict \<Rightarrow> ActionRecorder" where
  "recorder_record r now act kwargs =
     (if \<not> recording r then r
      else r\<lparr>actions := actions r @
                [\<lparr>action = PStr act, args = PDict kwargs,
                  timestamp = PFloat (now - start_time r)\<rparr>]\<rparr>)"

text \<open>A session: the calls \<open>(now, action, kwargs)\<close> made on the recorder, in order.\<close>

definition record_all :: "ActionRecorder \<Rightarrow> (real \<times> string \<times> pydict) list \<Rightarrow> ActionRecorder" where
  "record_all r calls = foldl (\<lambda>r (now, act, kwargs). recorder_record r now act kwargs) r calls"

definition recorded_as :: "real \<Rightarrow> real \<times> string \<times> pydict \<Rightarrow> RecordedAction" where
  "recorded_as t0 c =
     (case c of (now, act, kwargs) \<Rightarrow>
        \<lparr>action = PStr act, args = PDict kwargs, timestamp = PFloat (now - t0)\<rparr>)"

section \<open>Python strings\<close>

text \<open>
  A \<open>string\<close> is a list of code points below 256. \<^verbatim>\<open>str.lower\<close> on these maps
  A to Z and the Latin-1 capitals (all of 192 to 222 but the multiplication sign) 32
  places up; \<^verbatim>\<open>str.strip\<close> removes the code points for which \<^verbatim>\<open>str.isspace\<close>
  holds from both ends.
\<close>

definition lower_char :: "char \<Rightarrow> char" where
  "lower_char c =
     (let n = (of_char c :: nat)
      in if (65 \<le> n \<and> n \<le> 90) \<or> (192 \<le> n \<and> n \<le> 222 \<and> n \<noteq> 215)
         then char_of (n + 32) else c)"

definition lower :: "string \<Rightarrow> string" where
  "lower s = map lower_char s"

definition is_space :: "char \<Rightarrow> bool" where
  "is_space c = ((of_char c :: nat) \<in> {9, 10, 11, 12, 13, 28, 29, 30, 31, 32, 133, 160})"

definition strip :: "string \<Rightarrow> string" where
  "strip s = rev (dropWhile is_space (rev (dropWhile is_space s)))"

text \<open>\<^verbatim>\<open>s or d\<close> on strings: the empty string is falsy.\<close>

definition or_default :: "string \<Rightarrow> string \<Rightarrow> string" where
  "or_default s d = (if s = [] then d else s)"

text \<open>
  \<^verbatim>\<open>xs[:n]\<close> for an \<^verbatim>\<open>int\<close> bound: a negative bound counts from the end.
\<close>

definition py_upto :: "'a list \<Rightarrow> int \<Rightarrow> 'a list" where
  "py_upto xs n = (if 0 \<le> n then take (nat n) xs else take (nat (int (length xs) + n)) xs)"


section \<open>The page automation driver\<close>

text \<open>
  Playwright locators are lazy descriptions of a query; \<^verbatim>\<open>loc.nth(i)\<close> picks
  the i-th match whenever it is used, and \<^verbatim>\<open>loc.first\<close> is \<^verbatim>\<open>loc.nth(0)\<close>.
  \<open>ByRole role (Some q)\<close> is \<^verbatim>\<open>get_by_role(role, name=re.compile(re.escape(q), re.IGNORECASE))\<close>,
  \<open>ByRole role None\<close> is \<^verbatim>\<open>get_by_role(role)\<close>; the other text locators carry the
  query of the same case-insensitive pattern.
\<close>

datatype locator =
    Css string
  | ByRole string "string option"
  | ByLabel string
  | ByPlaceholder string
  | ByText string

datatype elem = Nth locator nat

datatype driver_action =
    AClick
  | AClear
  | AFill string
  | APressSequentially string int
  | ASelectOption string

record FormField =
  field_label :: string
  field_type :: string
  field_name :: string
  placeholder :: string
  required :: bool
  options :: "string list"

record DetectedForm =
  form_action :: string
  form_method :: string
  form_fields :: "FormField list"
  submit_text :: string

text \<open>
  What the world outside the modelled code answers at one moment: the driver's
  replies to queries and actions on the open page, the agent's started flag and
  stored recordings, the outcome of calling one of the agent's methods, and the
  draw of \<^verbatim>\<open>random.randint\<close>. Any call may raise.
\<close>

record world =
  count_of :: "locator \<Rightarrow> exn + nat"
  tag_of :: "elem \<Rightarrow> exn + string"
  text_of :: "elem \<Rightarrow> exn + string"
  attribute_of :: "elem \<Rightarrow> string \<Rightarrow> exn + string option"
  checked_of :: "elem \<Rightarrow> exn + bool"
  action_of :: "elem \<Rightarrow> driver_action \<Rightarrow> exn + unit"
  key_of :: "string \<Rightarrow> exn + unit"
  forms_of :: "exn + DetectedForm list"
  randint_of :: "int \<Rightarrow> int \<Rightarrow> int"
  started_of :: bool
  recording_of :: "string \<Rightarrow> exn + pydict list option"
  invoke_of :: "string \<Rightarrow> pydict \<Rightarrow> exn + unit"

text \<open>
  The transcript of a run: every external call with its reply, in order.
  \<open>Enter q\<close> marks an entry into \<^verbatim>\<open>find_element\<close> with query \<open>q\<close>; it is
  the only event that is not an external call. \<open>Invoke name kwargs awaited r\<close>
  is a call of the agent's method \<open>name\<close> with keyword arguments \<open>kwargs\<close>.
\<close>

datatype event =
    Enter string
  | Count locator "exn + nat"
  | TagName elem "exn + string"
  | InnerText elem "exn + string"
  | GetAttribute elem string "exn + string option"
  | IsChecked elem "exn + bool"
  | Act elem driver_action "exn + unit"
  | KeyboardPress string "exn + unit"
  | DetectForms "exn + DetectedForm list"
  | RandInt int int int
  | Sleep real
  | LoadRecording string "exn + pydict list option"
  | Invoke string pydict bool "exn + unit"

text \<open>
  The environment gives the state of the world after each history, so the page
  may change with every call made and every pause taken. A computation reads the
  history so far and returns its result (\<open>Inl\<close> for a raised exception) with the
  events it added.
\<close>

type_synonym env = "event list \<Rightarrow> world"

type_synonym 'a io = "event list \<Rightarrow> (exn + 'a) \<times> event list"

definition return_io :: "'a \<Rightarrow> 'a io" where
  "return_io x h = (Inr x, [])"

definition raise_io :: "exn \<Rightarrow> 'a io" where
  "raise_io e h = (Inl e, [])"

definition bind_io :: "'a io \<Rightarrow> ('a \<Rightarrow> 'b io) \<Rightarrow> 'b io" where
  "bind_io m f h =
     (case m h of
        (Inl e, evs) \<Rightarrow> (Inl e, evs)
      | (Inr x, evs) \<Rightarrow> (case f x (h @ evs) of (r, evs') \<Rightarrow> (r, evs @ evs')))"

text \<open>
  \<^verbatim>\<open>try: m except ...\<close>: the handler says for each exception whether it is
  caught (\<open>Some\<close> of the code that runs then) or passes through (\<open>None\<close>).
\<close>

definition try_except :: "'a io \<Rightarrow> (exn \<Rightarrow> 'a io option) \<Rightarrow> 'a io" where
  "try_except m handler h =
     (case m h of
        (Inr x, evs) \<Rightarrow> (Inr x, evs)
      | (Inl e, evs) \<Rightarrow>
          (case handler e of
             None \<Rightarrow> (Inl e, evs)
           | Some k \<Rightarrow> (case k (h @ evs) of (r, evs') \<Rightarrow> (r, evs @ evs'))))"

definition emit :: "event \<Rightarrow> unit io" where
  "emit ev h = (Inr (), [ev])"

definition count :: "env \<Rightarrow> locator \<Rightarrow> nat io" where
  "count env loc h = (count_of (env h) loc, [Count loc (count_of (env h) loc)])"

definition tag_name :: "env \<Rightarrow> elem \<Rightarrow> string io" where
  "tag_name env el h = (tag_of (env h) el, [TagName el (tag_of (env h) el)])"

definition inner_text :: "env \<Rightarrow> elem \<Rightarrow> string io" where
  "inner_text env el h = (text_of (env h) el, [InnerText el (text_of (env h) el)])"

definition get_attribute :: "env \<Rightarrow> elem \<Rightarrow> string \<Rightarrow> string option io" where
  "get_attribute env el a h = (attribute_of (env h) el a, [GetAttribute el a (attribute_of (env h) el a)])"

definition is_checked :: "env \<Rightarrow> elem \<Rightarrow> bool io" where
  "is_checked env el h = (checked_of (env h) el, [IsChecked el (checked_of (env h) el)])"

definition perform :: "env \<Rightarrow> elem \<Rightarrow> driver_action \<Rightarrow> unit io" where
  "perform env el a h = (action_of (env h) el a, [Act el a (action_of (env h) el a)])"

definition keyboard_press :: "env \<Rightarrow> string \<Rightarrow> unit io" where
  "keyboard_press env k h = (key_of (env h) k, [KeyboardPress k (key_of (env h) k)])"

definition sleep :: "real \<Rightarrow> unit io" where
  "sleep s = emit (Sleep s)"

section \<open>elements.py\<close>

record FoundElement =
  locator :: elem
  tag :: string
  el_text :: string
  role :: "string option"
  label :: "string option"

text \<open>
  \<^verbatim>\<open>_looks_like_selector\<close>: \<^verbatim>\<open>re.match(r"^[#.\[]", query)\<close> tests the first
  character.
\<close>

definition looks_like_selector :: "string \<Rightarrow> bool" where
  "looks_like_selector query =
     (if prefix ''//'' query \<or> prefix ''xpath='' query then True
      else if (case query of [] \<Rightarrow> False | c # _ \<Rightarrow> c \<in> {CHR ''#'', CHR ''.'', CHR ''[''}) then True
      else if sublist ''::'' query \<or> sublist '' > '' query \<or> sublist '' ~ '' query then True
      else False)"

text \<open>\<^verbatim>\<open>tag not in ("input", "select", "textarea")\<close> is \<open>\<not> input_like tag\<close>.\<close>

definition input_like :: "string \<Rightarrow> bool" where
  "input_like t = (t \<in> {''input'', ''select'', ''textarea''})"

text \<open>The f-string of the sixth strategy; 0x22 is the double quote.\<close>

definition attr_selector :: "string \<Rightarrow> string" where
  "attr_selector query =
     ''[title='' @ [CHR 0x22] @ query @ [CHR 0x22] @ '' i], [aria-label='' @
     [CHR 0x22] @ query @ [CHR 0x22] @ '' i]''"

text \<open>
  Each numbered block of \<^verbatim>\<open>find_element\<close> is one definition; it yields
  \<open>Some\<close> of the element where the block returns and \<open>None\<close> where control
  falls through to the next block.
\<close>

definition try_selector :: "env \<Rightarrow> string \<Rightarrow> FoundElement option io" where
  "try_selector env query =
     (if looks_like_selector query then
        bind_io (count env (Css query)) (\<lambda>n.
          if 0 < n then
            bind_io (tag_name env (Nth (Css query) 0)) (\<lambda>t.
              let tg = or_default t ''unknown'' in
              bind_io (if \<not> input_like tg
                       then bind_io (inner_text env (Nth (Css query) 0))
                              (\<lambda>s. return_io (take 100 (strip s)))
                       else return_io '''') (\<lambda>txt.
                return_io (Some \<lparr>locator = Nth (Css query) 0, tag = tg, el_text = txt,
                                  role = None, label = None\<rparr>)))
          else return_io None)
      else return_io None)"

fun try_roles :: "env \<Rightarrow> string \<Rightarrow> string list \<Rightarrow> FoundElement option io" where
  "try_roles env query [] = return_io None"
| "try_roles env query (r # roles) =
     bind_io (count env (ByRole r (Some query))) (\<lambda>n.
       if 0 < n then
         bind_io (tag_name env (Nth (ByRole r (Some query)) 0)) (\<lambda>t.
           bind_io (inner_text env (Nth (ByRole r (Some query)) 0)) (\<lambda>s.
             return_io (Some \<lparr>locator = Nth (ByRole r (Some query)) 0, tag = or_default t r,
                               el_text = take 100 (strip s), role = Some r, label = None\<rparr>)))
       else try_roles env query roles)"

definition try_label :: "env \<Rightarrow> string \<Rightarrow> FoundElement option io" where
  "try_label env query =
     bind_io (count env (ByLabel query)) (\<lambda>n.
       if 0 < n then
         bind_io (tag_name env (Nth (ByLabel query) 0)) (\<lambda>t.
           return_io (Some \<lparr>locator = Nth (ByLabel query) 0, tag = or_default t ''input'',
                             el_text = '''', role = None, label = Some query\<rparr>))
       else return_io None)"

definition try_placeholder :: "env \<Rightarrow> string \<Rightarrow> FoundElement option io" where
  "try_placeholder env query =
     bind_io (count env (ByPlaceholder query)) (\<lambda>n.
       if 0 < n then
         bind_io (tag_name env (Nth (ByPlaceholder query) 0)) (\<lambda>t.
           return_io (Some \<lparr>locator = Nth (ByPlaceholder query) 0, tag = or_default t ''input'',
                             el_text = '''', role = None, label = Some query\<rparr>))
       else return_io None)"

definition try_text :: "env \<Rightarrow> string \<Rightarrow> FoundElement option io" where
  "try_text env query =
     bind_io (count env (ByText query)) (\<lambda>n.
       if 0 < n then
         bind_io (tag_name env (Nth (ByText query) 0)) (\<lambda>t.
           bind_io (inner_text env (Nth (ByText query) 0)) (\<lambda>s.
             return_io (Some \<lparr>locator = Nth (ByText query) 0, tag = or_default t ''unknown'',
                               el_text = take 100 (strip s), role = None, label = None\<rparr>)))
       else return_io None)"

definition try_attr :: "env \<Rightarrow> string \<Rightarrow> FoundElement option io" where
  "try_attr env query =
     bind_io (count env (Css (attr_selector query))) (\<lambda>n.
       if 0 < n then
         bind_io (tag_name env (Nth (Css (attr_selector query)) 0)) (\<lambda>t.
           let tg = or_default t ''unknown'' in
           bind_io (if \<not> input_like tg
                    then inner_text env (Nth (Css (attr_selector query)) 0)
                    else return_io '''') (\<lambda>text_val.
             return_io (Some \<lparr>locator = Nth (Css (attr_selector query)) 0, tag = tg,
                               el_text = take 100 (strip text_val), role = None, label = None\<rparr>)))
       else return_io None)"

text \<open>
  \<^verbatim>\<open>_get_available_interactive\<close>. The inner loop reads the text of the first
  five matches of a role and swallows any exception of the read; the count
  itself is outside the \<^verbatim>\<open>try\<close>.
\<close>

fun scan_items :: "env \<Rightarrow> string \<Rightarrow> nat list \<Rightarrow> string list \<Rightarrow> string list io" where
  "scan_items env r [] items = return_io items"
| "scan_items env r (i # rest) items =
     bind_io
       (try_except
          (bind_io (inner_text env (Nth (ByRole r None) i)) (\<lambda>s.
             let name = take 50 (strip s) in
             return_io (if name \<noteq> [] then items @ [''['' @ r @ ''] '' @ name] else items)))
          (\<lambda>e. Some (return_io items)))
       (\<lambda>items'. scan_items env r rest items')"

fun available_loop :: "env \<Rightarrow> int \<Rightarrow> string list \<Rightarrow> string list \<Rightarrow> string list io" where
  "available_loop env limit [] items = return_io items"
| "available_loop env limit (r # roles) items =
     bind_io (count env (ByRole r None)) (\<lambda>n.
       bind_io (scan_items env r [0..<min n 5] items) (\<lambda>items'.
         if limit \<le> int (length items') then return_io items'
         else available_loop env limit roles items'))"

definition get_available_interactive :: "env \<Rightarrow> int \<Rightarrow> string list io" where
  "get_available_interactive env limit =
     bind_io (available_loop env limit [''button'', ''link'', ''textbox'', ''menuitem''] [])
       (\<lambda>items. return_io (py_upto items limit))"

text \<open>
  \<open>otherwise m k\<close>: return what the block \<open>m\<close> found, else go on with \<open>k\<close>.
\<close>

definition otherwise :: "'a option io \<Rightarrow> 'a io \<Rightarrow> 'a io" where
  "otherwise m k = bind_io m (\<lambda>r. case r of Some x \<Rightarrow> return_io x | None \<Rightarrow> k)"

text \<open>
  \<^verbatim>\<open>find_element(page, query, config)\<close>: the six blocks in order, then the
  error with the available elements. The body never reads \<open>config\<close>.
\<close>

definition find_element_body :: "env \<Rightarrow> string \<Rightarrow> FoundElement io" where
  "find_element_body env query =
       otherwise (try_selector env query)
      (otherwise (try_roles env query [''button'', ''link'', ''menuitem'', ''tab'', ''option''])
      (otherwise (try_label env query)
      (otherwise (try_placeholder env query)
      (otherwise (try_text env query)
      (otherwise (try_attr env query)
      (bind_io (get_available_interactive env 15)
         (\<lambda>available. raise_io (ElementNotFoundError query available))))))))"

definition find_element :: "env \<Rightarrow> string \<Rightarrow> 'c option \<Rightarrow> FoundElement io" where
  "find_element env query config =
     bind_io (emit (Enter query)) (\<lambda>_. find_element_body env query)"

section \<open>config.py, stealth.py\<close>

record RetryConfig =
  max_retries :: int
  retry_delay_ms :: int
  element_timeout_ms :: int

record StealthConfig =
  enabled :: bool
  random_delay_min_ms :: int
  random_delay_max_ms :: int
  mouse_jitter :: bool
  mouse_jitter_px :: int
  realistic_typing :: bool
  typing_delay_min_ms :: int
  typing_delay_max_ms :: int

text \<open>\<^verbatim>\<open>random.randint(a, b)\<close> raises \<^verbatim>\<open>ValueError\<close> on an empty range.\<close>

definition randint :: "env \<Rightarrow> int \<Rightarrow> int \<Rightarrow> int io" where
  "randint env a b h =
     (if b < a then (Inl ValueError, [])
      else (Inr (randint_of (env h) a b), [RandInt a b (randint_of (env h) a b)]))"

definition random_delay :: "env \<Rightarrow> StealthConfig \<Rightarrow> unit io" where
  "random_delay env config =
     (if \<not> enabled config then return_io ()
      else bind_io (randint env (random_delay_min_ms config) (random_delay_max_ms config))
             (\<lambda>delay_ms. sleep (real_of_int delay_ms / 1000)))"

section \<open>actions.py\<close>

text \<open>
  \<^verbatim>\<open>_with_retry\<close>. The loop runs over \<^verbatim>\<open>range(config.max_retries)\<close> with
  \<open>last_err\<close> as loop state; only \<^verbatim>\<open>ElementNotFoundError\<close> is caught. After
  the loop \<^verbatim>\<open>raise last_err\<close> raises the stored error, and \<^verbatim>\<open>raise None\<close>
  (an empty range) is a \<^verbatim>\<open>TypeError\<close>.
\<close>

fun with_retry_loop ::
  "env \<Rightarrow> string \<Rightarrow> RetryConfig \<Rightarrow> nat list \<Rightarrow> exn option \<Rightarrow> FoundElement io" where
  "with_retry_loop env query config [] last_err =
     (case last_err of None \<Rightarrow> raise_io TypeError | Some e \<Rightarrow> raise_io e)"
| "with_retry_loop env query config (attempt # rest) last_err =
     try_except (find_element env query (Some config))
       (\<lambda>e. case e of
          ElementNotFoundError q av \<Rightarrow>
            Some (bind_io
                    (if int attempt < max_retries config - 1
                     then sleep (real_of_int (retry_delay_ms config) / 1000)
                     else return_io ())
                    (\<lambda>_. with_retry_loop env query config rest (Some e)))
        | _ \<Rightarrow> None)"

definition with_retry :: "env \<Rightarrow> string \<Rightarrow> RetryConfig \<Rightarrow> FoundElement io" where
  "with_retry env query config =
     with_retry_loop env query config [0..<nat (max_retries config)] None"

section \<open>forms.py\<close>

definition detect_forms :: "env \<Rightarrow> DetectedForm list io" where
  "detect_forms env h = (forms_of (env h), [DetectForms (forms_of (env h))])"

text \<open>\<^verbatim>\<open>should_check = value.lower() in ("true", "yes", "1", "on")\<close>\<close>

definition should_check :: "string \<Rightarrow> bool" where
  "should_check val = (lower val \<in> {''true'', ''yes'', ''1'', ''on''})"

text \<open>
  The body of the loop of \<^verbatim>\<open>fill_form\<close> for one pair. The element is looked
  up with \<^verbatim>\<open>find_element(page, label, retry)\<close>.
\<close>

definition fill_field :: "env \<Rightarrow> RetryConfig \<Rightarrow> StealthConfig \<Rightarrow> string \<times> string \<Rightarrow> unit io" where
  "fill_field env retry stealth p =
     (case p of (lbl, val) \<Rightarrow>
        bind_io (find_element env lbl (Some retry)) (\<lambda>el.
          bind_io
            (if tag el = ''select'' then perform env (locator el) (ASelectOption val)
             else if tag el \<in> {''input'', ''textarea''} then
               bind_io (get_attribute env (locator el) ''type'') (\<lambda>t.
                 let input_type = (case t of None \<Rightarrow> ''text'' | Some s \<Rightarrow> or_default s ''text'') in
                 if input_type = ''checkbox'' then
                   bind_io (is_checked env (locator el)) (\<lambda>checked.
                     if checked \<noteq> should_check val then perform env (locator el) AClick
                     else return_io ())
                 else if input_type = ''radio'' then perform env (locator el) AClick
                 else
                   bind_io (perform env (locator el) AClear) (\<lambda>_.
                     if realistic_typing stealth
                     then perform env (locator el)
                            (APressSequentially val (typing_delay_min_ms stealth))
                     else perform env (locator el) (AFill val)))
             else perform env (locator el) (AFill val))
            (\<lambda>_. random_delay env stealth)))"

fun fill_fields ::
  "env \<Rightarrow> RetryConfig \<Rightarrow> StealthConfig \<Rightarrow> (string \<times> string) list \<Rightarrow> unit io" where
  "fill_fields env retry stealth [] = return_io ()"
| "fill_fields env retry stealth (p # rest) =
     bind_io (fill_field env retry stealth p) (\<lambda>_. fill_fields env retry stealth rest)"

text \<open>
  \<^verbatim>\<open>fill_form\<close>; \<open>field_values\<close> is the dict as its items in insertion order.
\<close>

definition fill_form ::
  "env \<Rightarrow> (string \<times> string) list \<Rightarrow> bool \<Rightarrow> RetryConfig \<Rightarrow> StealthConfig \<Rightarrow> unit io" where
  "fill_form env field_values submit retry stealth =
     bind_io (fill_fields env retry stealth field_values) (\<lambda>_.
       if submit then
         bind_io (detect_forms env) (\<lambda>forms.
           case forms of
             f # _ \<Rightarrow>
               try_except
                 (bind_io (find_element env (submit_text f) (Some retry))
                    (\<lambda>el. perform env (locator el) AClick))
                 (\<lambda>e. Some (keyboard_press env ''Enter''))
           | [] \<Rightarrow> keyboard_press env ''Enter'')
       else return_io ())"

section \<open>extraction.py, page\_state.py\<close>







section \<open>agent.py\<close>

text \<open>
  What \<^verbatim>\<open>getattr(self, name, None)\<close> can find on a \<^verbatim>\<open>BrowserAgent\<close>: a
  coroutine method, a plain method, a property, or an instance field.
\<close>

datatype attr = AsyncMethod | SyncMethod | Property | Field

definition async_methods :: "string list" where
  "async_methods =
     [''start'', ''close'', ''__aenter__'', ''__aexit__'', ''get_title'', ''goto'', ''back'',
      ''forward'', ''refresh'', ''click'', ''type'', ''hover'', ''select'', ''scroll_down'',
      ''scroll_up'', ''scroll_to'', ''wait_for'', ''wait'', ''get_text'', ''get_links'',
      ''get_tables'', ''get_meta'', ''page_summary'', ''screenshot'', ''fill_form'',
      ''detect_forms'', ''save_profile'', ''load_profile'', ''replay'', ''press'', ''evaluate'']"

definition sync_methods :: "string list" where
  "sync_methods =
     [''__init__'', ''_ensure_started'', ''list_profiles'', ''start_recording'',
      ''stop_recording'', ''save_recording'']"

definition instance_fields :: "string list" where
  "instance_fields = [''_config'', ''_manager'', ''_storage'', ''_recorder'', ''_started'']"

text \<open>
  The names the class body and \<^verbatim>\<open>__init__\<close> define. The property
  \<^verbatim>\<open>title\<close> always raises \<^verbatim>\<open>AttributeError\<close>, which \<^verbatim>\<open>getattr\<close> with a
  default turns into the default, so it counts as absent. Every other name is
  looked up among the attributes the class inherits from \<^verbatim>\<open>object\<close>, which
  are a parameter.
\<close>

definition getattr_agent :: "(string \<Rightarrow> attr option) \<Rightarrow> string \<Rightarrow> attr option" where
  "getattr_agent inherited name =
     (if name = ''title'' then None
      else if name \<in> set async_methods then Some AsyncMethod
      else if name \<in> set sync_methods then Some SyncMethod
      else if name \<in> {''page'', ''url''} then Some Property
      else if name \<in> set instance_fields then Some Field
      else inherited name)"

text \<open>
  The verbs the agent itself records: the first arguments of its calls of
  \<^verbatim>\<open>self._recorder.record\<close>.
\<close>

definition recorded_verbs :: "string list" where
  "recorded_verbs =
     [''goto'', ''back'', ''forward'', ''refresh'', ''click'', ''type'', ''hover'', ''select'',
      ''scroll_down'', ''scroll_up'', ''scroll_to'', ''screenshot'', ''fill_form'', ''press'']"

definition ensure_started :: "env \<Rightarrow> unit io" where
  "ensure_started env h =
     (if started_of (env h) then (Inr (), []) else (Inl BrowserNotStartedError, []))"

definition invoke :: "env \<Rightarrow> string \<Rightarrow> pydict \<Rightarrow> bool \<Rightarrow> unit io" where
  "invoke env name kwargs awaited h =
     (invoke_of (env h) name kwargs, [Invoke name kwargs awaited (invoke_of (env h) name kwargs)])"

text \<open>
  \<^verbatim>\<open>ActionRecorder.load\<close>: the list comprehension over \<^verbatim>\<open>from_dict\<close> stops at
  the first \<^verbatim>\<open>KeyError\<close>; 0x27 is the single quote of the message.
\<close>

fun from_dicts :: "pydict list \<Rightarrow> exn + RecordedAction list" where
  "from_dicts [] = Inr []"
| "from_dicts (d # ds) =
     (case from_dict d of
        Inl e \<Rightarrow> Inl e
      | Inr a \<Rightarrow> (case from_dicts ds of Inl e \<Rightarrow> Inl e | Inr as \<Rightarrow> Inr (a # as)))"

definition load_recording :: "env \<Rightarrow> string \<Rightarrow> pydict list option io" where
  "load_recording env name h =
     (recording_of (env h) name, [LoadRecording name (recording_of (env h) name)])"

definition recorder_load :: "env \<Rightarrow> string \<Rightarrow> RecordedAction list io" where
  "recorder_load env name =
     bind_io (load_recording env name) (\<lambda>raw.
       case raw of
         None \<Rightarrow> raise_io (RecordingError (''Recording '' @ [CHR 0x27] @ name @ [CHR 0x27] @ '' not found''))
       | Some ds \<Rightarrow> (case from_dicts ds of Inl e \<Rightarrow> raise_io e | Inr as \<Rightarrow> return_io as))"

text \<open>
  The loop of \<^verbatim>\<open>replay\<close>. \<^verbatim>\<open>getattr\<close> wants a string as name and
  \<^verbatim>\<open>**recorded.args\<close> a mapping; calling a value that is not callable is a
  \<^verbatim>\<open>TypeError\<close>. A property is read before that, and reading \<^verbatim>\<open>page\<close> or
  \<^verbatim>\<open>url\<close> checks that the browser is started. Coroutine methods are awaited.
\<close>

fun replay_loop :: "env \<Rightarrow> (string \<Rightarrow> attr option) \<Rightarrow> RecordedAction list \<Rightarrow> unit io" where
  "replay_loop env inherited [] = return_io ()"
| "replay_loop env inherited (recorded # rest) =
     (case action recorded of
        PStr name \<Rightarrow>
          (case getattr_agent inherited name of
             None \<Rightarrow> replay_loop env inherited rest
           | Some Property \<Rightarrow> bind_io (ensure_started env) (\<lambda>_. raise_io TypeError)
           | Some Field \<Rightarrow> raise_io TypeError
           | Some AsyncMethod \<Rightarrow>
               (case args recorded of
                  PDict kwargs \<Rightarrow>
                    bind_io (invoke env name kwargs True) (\<lambda>_. replay_loop env inherited rest)
                | _ \<Rightarrow> raise_io TypeError)
           | Some SyncMethod \<Rightarrow>
               (case args recorded of
                  PDict kwargs \<Rightarrow>
                    bind_io (invoke env name kwargs False) (\<lambda>_. replay_loop env inherited rest)
                | _ \<Rightarrow> raise_io TypeError))
      | _ \<Rightarrow> raise_io TypeError)"

definition replay :: "env \<Rightarrow> (string \<Rightarrow> attr option) \<Rightarrow> string \<Rightarrow> unit io" where
  "replay env inherited name =
     bind_io (ensure_started env) (\<lambda>_.
       bind_io (recorder_load env name) (\<lambda>actions.
         replay_loop env inherited actions))"

section \<open>Observing a run\<close>

text \<open>
  \<open>emits P m\<close>: every event that the computation \<open>m\<close> adds satisfies \<open>P\<close>,
  whatever the history. The lookups are the driver's read-only queries.
\<close>

definition emits :: "(event \<Rightarrow> bool) \<Rightarrow> 'a io \<Rightarrow> bool" where
  "emits P m = (\<forall>h r evs. m h = (r, evs) \<longrightarrow> list_all P evs)"

fun is_lookup :: "event \<Rightarrow> bool" where
  "is_lookup (Count l r) = True"
| "is_lookup (TagName e r) = True"
| "is_lookup (InnerText e r) = True"
| "is_lookup _ = False"

text \<open>The elements clicked in a transcript, in order.\<close>

fun clicked :: "event \<Rightarrow> elem list" where
  "clicked (Act el AClick r) = [el]"
| "clicked _ = []"

definition clicks :: "event list \<Rightarrow> elem list" where
  "clicks evs = concat (map clicked evs)"

text \<open>The queries of the resolution attempts and the pauses of a transcript, in order.\<close>

fun entered :: "event \<Rightarrow> string list" where
  "entered (Enter q) = [q]"
| "entered _ = []"

definition attempts :: "event list \<Rightarrow> string list" where
  "attempts evs = concat (map entered evs)"

fun slept :: "event \<Rightarrow> real list" where
  "slept (Sleep s) = [s]"
| "slept _ = []"

definition sleeps :: "event list \<Rightarrow> real list" where
  "sleeps evs = concat (map slept evs)"




text \<open>
  The queries counted in a transcript with the number of matches each gave, and
  the elements whose tag or text was read.
\<close>

fun counted :: "event \<Rightarrow> (locator \<times> (exn + nat)) list" where
  "counted (Count l r) = [(l, r)]"
| "counted _ = []"

definition counts :: "event list \<Rightarrow> (locator \<times> (exn + nat)) list" where
  "counts evs = concat (map counted evs)"

fun read_of :: "event \<Rightarrow> elem list" where
  "read_of (TagName e r) = [e]"
| "read_of (InnerText e r) = [e]"
| "read_of _ = []"

definition reads :: "event list \<Rightarrow> elem list" where
  "reads evs = concat (map read_of evs)"

definition zeros :: "locator list \<Rightarrow> (locator \<times> (exn + nat)) list" where
  "zeros ls = map (\<lambda>l. (l, Inr 0)) ls"



text \<open>
  The exception that an external call of the transcript answered with, if it did;
  \<open>raised_last evs e\<close>: the last call of the transcript raised \<open>e\<close>.
\<close>

fun reply_error :: "event \<Rightarrow> exn option" where
  "reply_error (Count l (Inl e)) = Some e"
| "reply_error (TagName el (Inl e)) = Some e"
| "reply_error (InnerText el (Inl e)) = Some e"
| "reply_error (GetAttribute el a (Inl e)) = Some e"
| "reply_error (IsChecked el (Inl e)) = Some e"
| "reply_error (Act el a (Inl e)) = Some e"
| "reply_error (KeyboardPress k (Inl e)) = Some e"
| "reply_error (DetectForms (Inl e)) = Some e"
| "reply_error (LoadRecording n (Inl e)) = Some e"
| "reply_error (Invoke n kw aw (Inl e)) = Some e"
| "reply_error _ = None"

definition raised_last :: "event list \<Rightarrow> exn \<Rightarrow> bool" where
  "raised_last evs e = (evs \<noteq> [] \<and> reply_error (last evs) = Some e)"





text \<open>\<open>yields P m\<close>: whatever \<open>m\<close> returns satisfies \<open>P\<close>.\<close>

definition yields :: "('a \<Rightarrow> bool) \<Rightarrow> 'a io \<Rightarrow> bool" where
  "yields P m = (\<forall>h x evs. m h = (Inr x, evs) \<longrightarrow> P x)"

definition short_text :: "FoundElement option \<Rightarrow> bool" where
  "short_text r = (case r of None \<Rightarrow> True | Some el \<Rightarrow> length (el_text el) \<le> 100)"

text \<open>
  The method calls of a transcript, in order, each with its keyword arguments and
  whether it was awaited.
\<close>

fun invoked :: "event \<Rightarrow> (string \<times> pydict \<times> bool) list" where
  "invoked (Invoke name kwargs awaited r) = [(name, kwargs, awaited)]"
| "invoked _ = []"

definition invokes :: "event list \<Rightarrow> (string \<times> pydict \<times> bool) list" where
  "invokes evs = concat (map invoked evs)"

text \<open>
  What the loop of \<^verbatim>\<open>replay\<close> does with a recorded action: it skips an action
  whose name is a string that \<^verbatim>\<open>getattr\<close> does not find; it calls the method
  when the name resolves to one and the arguments are a dict; any other action
  (a name that is no string, an attribute that is no method, arguments that are
  no dict) cannot be called and ends the replay.
\<close>

datatype fate = Skipped | Called "string \<times> pydict \<times> bool" | Rejected

definition fate_of :: "(string \<Rightarrow> attr option) \<Rightarrow> RecordedAction \<Rightarrow> fate" where
  "fate_of inherited recorded =
     (case action recorded of
        PStr name \<Rightarrow>
          (case getattr_agent inherited name of
             None \<Rightarrow> Skipped
           | Some AsyncMethod \<Rightarrow>
               (case args recorded of PDict kwargs \<Rightarrow> Called (name, kwargs, True) | _ \<Rightarrow> Rejected)
           | Some SyncMethod \<Rightarrow>
               (case args recorded of PDict kwargs \<Rightarrow> Called (name, kwargs, False) | _ \<Rightarrow> Rejected)
           | Some _ \<Rightarrow> Rejected)
      | _ \<Rightarrow> Rejected)"

definition callable :: "(string \<Rightarrow> attr option) \<Rightarrow> RecordedAction \<Rightarrow> bool" where
  "callable inherited recorded = (fate_of inherited recorded \<noteq> Rejected)"

text \<open>
  The call that a recorded action stands for: its name and arguments when the
  name is a string that \<^verbatim>\<open>getattr\<close> resolves to a method of the agent and the
  arguments are a dict, awaited when the method is a coroutine function, and
  none otherwise.
\<close>

definition dispatched ::
  "(string \<Rightarrow> attr option) \<Rightarrow> RecordedAction \<Rightarrow> (string \<times> pydict \<times> bool) list" where
  "dispatched inherited recorded =
     (case (action recorded, args recorded) of
        (PStr name, PDict kwargs) \<Rightarrow>
          (case getattr_agent inherited name of
             Some AsyncMethod \<Rightarrow> [(name, kwargs, True)]
           | Some SyncMethod \<Rightarrow> [(name, kwargs, False)]
           | _ \<Rightarrow> [])
      | _ \<Rightarrow> [])"

text \<open>
  \<open>stopped_at inh acts k e evs\<close>: a replay of \<open>acts\<close> with transcript \<open>evs\<close> ended
  with the exception \<open>e\<close> at the action of index \<open>k\<close>. The actions before it were
  skipped or called, and all their calls were made, in order. The action at \<open>k\<close>
  either was called as well, as the last call, and that call raised \<open>e\<close>; or it
  could not be called, no call was made for it, and \<open>e\<close> is a \<^verbatim>\<open>TypeError\<close>
  (or \<^verbatim>\<open>BrowserNotStartedError\<close>, when reading the property found the browser
  stopped).
\<close>

definition stopped_at ::
  "(string \<Rightarrow> attr option) \<Rightarrow> RecordedAction list \<Rightarrow> nat \<Rightarrow> exn \<Rightarrow> event list \<Rightarrow> bool" where
  "stopped_at inh acts k e evs =
     (k < length acts \<and> list_all (callable inh) (take k acts) \<and>
      ((\<exists>c. fate_of inh (acts ! k) = Called c \<and>
            invokes evs = concat (map (dispatched inh) (take k acts)) @ [c] \<and>
            raised_last evs e) \<or>
       (fate_of inh (acts ! k) = Rejected \<and>
        invokes evs = concat (map (dispatched inh) (take k acts)) \<and>
        (e = TypeError \<or> e = BrowserNotStartedError))))"

section \<open>Example pages\<close>

text \<open>The defaults of \<^verbatim>\<open>RetryConfig\<close> and \<^verbatim>\<open>StealthConfig\<close>.\<close>

definition default_retry :: RetryConfig where
  "default_retry = \<lparr>max_retries = 3, retry_delay_ms = 1000, element_timeout_ms = 10000\<rparr>"

definition default_stealth :: StealthConfig where
  "default_stealth =
     \<lparr>enabled = True, random_delay_min_ms = 500, random_delay_max_ms = 2000,
      mouse_jitter = True, mouse_jitter_px = 3, realistic_typing = True,
      typing_delay_min_ms = 50, typing_delay_max_ms = 150\<rparr>"

text \<open>
  A started agent on a page where no locator matches anything, every action
  succeeds and nothing is stored.
\<close>

definition blank_world :: world where
  "blank_world =
     \<lparr>count_of = (\<lambda>l. Inr 0), tag_of = (\<lambda>e. Inr ''div''), text_of = (\<lambda>e. Inr []),
      attribute_of = (\<lambda>e a. Inr None), checked_of = (\<lambda>e. Inr False),
      action_of = (\<lambda>e a. Inr ()), key_of = (\<lambda>k. Inr ()), forms_of = Inr [],
      randint_of = (\<lambda>a b. a), started_of = True, recording_of = (\<lambda>n. Inr None),
      invoke_of = (\<lambda>n k. Inr ())\<rparr>"

text \<open>
  A page with one checkbox labelled "Subscribe" whose checked state is \<open>c\<close>:
  \<^verbatim>\<open><label>Subscribe <input type="checkbox"></label>\<close>.
\<close>

definition checkbox_world :: "bool \<Rightarrow> world" where
  "checkbox_world c =
     blank_world\<lparr>count_of := (\<lambda>l. Inr (if l = ByLabel ''Subscribe'' then 1 else 0)),
                  tag_of := (\<lambda>e. Inr ''input''),
                  attribute_of := (\<lambda>e a. Inr (if a = ''type'' then Some ''checkbox'' else None)),
                  checked_of := (\<lambda>e. Inr c)\<rparr>"

definition checkbox_env :: "bool \<Rightarrow> env" where
  "checkbox_env c h = checkbox_world c"

definition subscribe_box :: FoundElement where
  "subscribe_box =
     \<lparr>locator = Nth (ByLabel ''Subscribe'') 0, tag = ''input'', el_text = [],
      role = None, label = Some ''Subscribe''\<rparr>"

text \<open>
  The "Subscribe" checkbox is attached only once two pauses have passed; and a
  page that stays blank.
\<close>

definition late_env :: env where
  "late_env h = (if 2 \<le> length (sleeps h) then checkbox_world False else blank_world)"





text \<open>
  A page whose only match for the text "Notes" is a textarea with that content
  which is not rendered, so that its inner text is its text content:
  \<^verbatim>\<open><textarea style="display:none">Notes for the courier</textarea>\<close>.
\<close>

definition textarea_world :: world where
  "textarea_world =
     blank_world\<lparr>count_of := (\<lambda>l. Inr (if l = ByText ''Notes'' then 1 else 0)),
                  tag_of := (\<lambda>e. Inr ''textarea''),
                  text_of := (\<lambda>e. Inr ''Notes for the courier'')\<rparr>"

definition textarea_env :: env where
  "textarea_env h = textarea_world"

text \<open>
  Stored recordings: "demo" holds a navigation, an action named "drag", which
  the agent does not have, and a typing action; "private" names the private
  method \<^verbatim>\<open>_ensure_started\<close>; "field" names the instance field \<^verbatim>\<open>_started\<close>;
  "stale" holds a navigation, a click and a typing action. On the page of the
  replay every click raises \<^verbatim>\<open>ElementNotFoundError\<close> and every other method
  succeeds. No attribute is inherited beyond the ones of the class.
\<close>

definition no_inherited :: "string \<Rightarrow> attr option" where
  "no_inherited name = None"

definition goto_action :: RecordedAction where
  "goto_action =
     \<lparr>action = PStr ''goto'', args = PDict [(''url'', PStr ''https://example.com/'')],
      timestamp = PFloat 0\<rparr>"

definition drag_action :: RecordedAction where
  "drag_action =
     \<lparr>action = PStr ''drag'', args = PDict [(''query'', PStr ''Slider'')], timestamp = PFloat 1\<rparr>"

definition type_action :: RecordedAction where
  "type_action =
     \<lparr>action = PStr ''type'', args = PDict [(''query'', PStr ''Email''), (''text'', PStr ''x'')],
      timestamp = PFloat 2\<rparr>"

definition click_action :: RecordedAction where
  "click_action =
     \<lparr>action = PStr ''click'', args = PDict [(''query'', PStr ''Gone'')], timestamp = PFloat 1\<rparr>"

definition demo_actions :: "RecordedAction list" where
  "demo_actions = [goto_action, drag_action, type_action]"

definition private_actions :: "RecordedAction list" where
  "private_actions = [\<lparr>action = PStr ''_ensure_started'', args = PDict [], timestamp = PFloat 0\<rparr>]"

definition field_actions :: "RecordedAction list" where
  "field_actions = [\<lparr>action = PStr ''_started'', args = PDict [], timestamp = PFloat 0\<rparr>]"

definition stale_actions :: "RecordedAction list" where
  "stale_actions = [goto_action, click_action, type_action]"

definition stored_recordings :: "string \<Rightarrow> exn + pydict list option" where
  "stored_recordings name =
     Inr (if name = ''demo'' then Some (map to_dict demo_actions)
          else if name = ''private'' then Some (map to_dict private_actions)
          else if name = ''field'' then Some (map to_dict field_actions)
          else if name = ''stale'' then Some (map to_dict stale_actions)
          else None)"

definition method_outcomes :: "string \<Rightarrow> pydict \<Rightarrow> exn + unit" where
  "method_outcomes name kwargs =
     (if name = ''click'' then Inl (ElementNotFoundError ''Gone'' []) else Inr ())"

definition replay_world :: world where
  "replay_world =
     blank_world\<lparr>recording_of := stored_recordings, invoke_of := method_outcomes\<rparr>"

definition replay_env :: env where
  "replay_env h = replay_world"



section \<open>Properties of the recorder\<close>

lemma record_all_snoc:
  "record_all r (calls @ [c]) =
     recorder_record (record_all r calls) (fst c) (fst (snd c)) (snd (snd c))"
  by (simp add: record_all_def split: prod.splits)

lemma record_all_recording:
  "recording r \<Longrightarrow>
     record_all r calls = r\<lparr>actions := actions r @ map (recorded_as (start_time r)) calls\<rparr>"
proof (induction calls rule: rev_induct)
  case Nil
  then show ?case by (simp add: record_all_def)
next
  case (snoc c calls)
  then show ?case
    by (cases c) (simp add: record_all_snoc recorder_record_def recorded_as_def)
qed

text \<open>
  C9. \<^verbatim>\<open>RecordedAction.from_dict(a.to_dict())\<close> is \<open>a\<close> again: the action name,
  the arguments and the timestamp offset all come back unchanged, and no
  \<^verbatim>\<open>KeyError\<close> is raised. It holds for every value in the fields, the
  serializable kinds among them.
\<close>

theorem from_dict_to_dict: "from_dict (to_dict a) = Inr a"
  by (simp add: from_dict_def to_dict_def dict_get_def)

text \<open>
  C10. While no session is active, \<^verbatim>\<open>record\<close> returns at once: the buffer, the
  recording flag and the time origin are all as before.
\<close>

theorem record_not_recording_noop:
  "\<not> recording r \<Longrightarrow> recorder_record r now name kwargs = r"
  by (simp add: recorder_record_def)

theorem record_not_recording_noop_witness:
  "\<not> recording recorder_init \<and>
   recorder_record recorder_init 5 ''click'' [(''query'', PStr ''Submit'')] = recorder_init"
  using record_not_recording_noop [of recorder_init 5 "''click''" "[(''query'', PStr ''Submit'')]"]
  by (simp add: recorder_init_def)

text \<open>
  C3, as the claim states it, fails: \<^verbatim>\<open>stop\<close> returns a copy of the buffer and
  only lowers the recording flag, so after one recorded click the buffer still
  holds that click once \<^verbatim>\<open>stop\<close> has returned. (\<^verbatim>\<open>save\<close> reads the buffer
  after \<^verbatim>\<open>stop\<close>.)
\<close>

theorem stop_keeps_buffer_counterexample:
  "actions (fst (recorder_stop
      (recorder_record (recorder_start recorder_init 10) 12 ''click'' [(''query'', PStr ''Submit'')])))
   \<noteq> []"
  by (simp add: recorder_stop_def recorder_record_def recorder_start_def recorder_init_def)

text \<open>
  C3, amended. \<^verbatim>\<open>start\<close> raises the flag, empties the buffer and sets the time
  origin to the clock reading. After any calls of \<^verbatim>\<open>record\<close>, \<^verbatim>\<open>stop\<close>
  returns exactly the actions recorded since \<^verbatim>\<open>start\<close>, in call order with
  offsets from the new origin; it lowers the flag and leaves the buffer and the
  origin in place (the buffer is emptied by the next \<^verbatim>\<open>start\<close>).
\<close>

theorem start_clears_stop_returns:
  "recorder_start r t0 = \<lparr>recording = True, actions = [], start_time = t0\<rparr> \<and>
   snd (recorder_stop (record_all (recorder_start r t0) calls)) = map (recorded_as t0) calls \<and>
   fst (recorder_stop (record_all (recorder_start r t0) calls)) =
     \<lparr>recording = False, actions = map (recorded_as t0) calls, start_time = t0\<rparr>"
  by (simp add: record_all_recording recorder_start_def recorder_stop_def)

section \<open>Properties of the page summary\<close>




section \<open>The events of a computation\<close>

lemma emitsI: "(\<And>h r evs. m h = (r, evs) \<Longrightarrow> list_all P evs) \<Longrightarrow> emits P m"
  by (simp add: emits_def)

lemma emitsD: "emits P m \<Longrightarrow> m h = (r, evs) \<Longrightarrow> list_all P evs"
  by (simp add: emits_def)

lemma emits_return [intro!, simp]: "emits P (return_io x)"
  by (simp add: emits_def return_io_def)

lemma emits_raise [intro!, simp]: "emits P (raise_io e)"
  by (simp add: emits_def raise_io_def)

lemma emits_bind [intro!]:
  assumes "emits P m" and "\<And>x. emits P (f x)"
  shows "emits P (bind_io m f)"
proof (rule emitsI)
  fix h r evs
  assume run: "bind_io m f h = (r, evs)"
  obtain r1 e1 where m: "m h = (r1, e1)" by (cases "m h")
  have p1: "list_all P e1" using assms(1) m by (rule emitsD)
  show "list_all P evs"
  proof (cases r1)
    case (Inl e)
    with run m p1 show ?thesis by (simp add: bind_io_def)
  next
    case (Inr x)
    obtain r2 e2 where f: "f x (h @ e1) = (r2, e2)" by (cases "f x (h @ e1)")
    have "list_all P e2" using assms(2) f by (rule emitsD)
    with run m p1 Inr f show ?thesis by (auto simp add: bind_io_def)
  qed
qed

lemma emits_try_except [intro!]:
  assumes "emits P m" and "\<And>e k. handler e = Some k \<Longrightarrow> emits P k"
  shows "emits P (try_except m handler)"
proof (rule emitsI)
  fix h r evs
  assume run: "try_except m handler h = (r, evs)"
  obtain r1 e1 where m: "m h = (r1, e1)" by (cases "m h")
  have p1: "list_all P e1" using assms(1) m by (rule emitsD)
  show "list_all P evs"
  proof (cases r1)
    case (Inr x)
    with run m p1 show ?thesis by (simp add: try_except_def)
  next
    case (Inl e)
    show ?thesis
    proof (cases "handler e")
      case None
      with run m p1 Inl show ?thesis by (simp add: try_except_def)
    next
      case (Some k)
      obtain r2 e2 where f: "k (h @ e1) = (r2, e2)" by (cases "k (h @ e1)")
      have "list_all P e2" using assms(2) [OF Some] f by (rule emitsD)
      with run m p1 Inl Some f show ?thesis by (auto simp add: try_except_def)
    qed
  qed
qed

lemma emits_otherwise [intro!]:
  "emits P m \<Longrightarrow> emits P k \<Longrightarrow> emits P (otherwise m k)"
  unfolding otherwise_def by (auto split: option.splits)

lemma emits_emit [intro!]: "P ev \<Longrightarrow> emits P (emit ev)"
  by (simp add: emits_def emit_def)

lemma emits_count [intro!]: "(\<And>r. P (Count l r)) \<Longrightarrow> emits P (count env l)"
  by (simp add: emits_def count_def)

lemma emits_tag_name [intro!]: "(\<And>r. P (TagName e r)) \<Longrightarrow> emits P (tag_name env e)"
  by (simp add: emits_def tag_name_def)

lemma emits_inner_text [intro!]: "(\<And>r. P (InnerText e r)) \<Longrightarrow> emits P (inner_text env e)"
  by (simp add: emits_def inner_text_def)

lemma emits_try_roles: "emits is_lookup (try_roles env q rs)"
  by (induction rs) auto

lemma emits_scan_items: "emits is_lookup (scan_items env r is items)"
  by (induction "is" arbitrary: items) auto

lemma emits_available_loop: "emits is_lookup (available_loop env limit rs items)"
  by (induction rs arbitrary: items) (auto intro: emits_scan_items)

lemma emits_get_available: "emits is_lookup (get_available_interactive env limit)"
  unfolding get_available_interactive_def
  by (intro emits_bind emits_available_loop emits_return)

lemma emits_try_selector: "emits is_lookup (try_selector env q)"
  unfolding try_selector_def Let_def by auto

lemma emits_try_label: "emits is_lookup (try_label env q)"
  unfolding try_label_def by auto

lemma emits_try_placeholder: "emits is_lookup (try_placeholder env q)"
  unfolding try_placeholder_def by auto

lemma emits_try_text: "emits is_lookup (try_text env q)"
  unfolding try_text_def by auto

lemma emits_try_attr: "emits is_lookup (try_attr env q)"
  unfolding try_attr_def Let_def by auto

lemma emits_find_element_body: "emits is_lookup (find_element_body env query)"
  unfolding find_element_body_def
  by (intro emits_bind emits_otherwise emits_try_selector emits_try_roles
      emits_try_label emits_try_placeholder emits_try_text emits_try_attr emits_get_available
      emits_raise)

lemma find_element_unfold:
  "find_element env q c h =
     (fst (find_element_body env q (h @ [Enter q])),
      Enter q # snd (find_element_body env q (h @ [Enter q])))"
  by (simp add: find_element_def bind_io_def emit_def split: prod.splits)

text \<open>A resolution adds its entry mark and then lookups only.\<close>

lemma find_element_events:
  assumes "find_element env q c h = (r, evs)"
  shows "\<exists>evs'. evs = Enter q # evs' \<and> list_all is_lookup evs'"
proof -
  have "list_all is_lookup (snd (find_element_body env q (h @ [Enter q])))"
    using emits_find_element_body by (rule emitsD) (rule prod.collapse [symmetric])
  with assms show ?thesis by (auto simp add: find_element_unfold)
qed

lemma clicks_append [simp]: "clicks (xs @ ys) = clicks xs @ clicks ys"
  by (simp add: clicks_def)

lemma clicks_Nil [simp]: "clicks [] = []"
  by (simp add: clicks_def)

lemma clicks_Cons [simp]: "clicks (e # es) = clicked e @ clicks es"
  by (simp add: clicks_def)

lemma clicks_lookup: "list_all is_lookup evs \<Longrightarrow> clicks evs = []"
  by (induction evs) (auto elim: is_lookup.elims)

lemma clicks_find_element: "find_element env q c h = (r, evs) \<Longrightarrow> clicks evs = []"
  by (auto dest!: find_element_events simp: clicks_lookup)

lemma clicks_random_delay: "random_delay env st h = (r, evs) \<Longrightarrow> clicks evs = []"
  by (auto simp: random_delay_def bind_io_def randint_def return_io_def sleep_def emit_def
      split: if_splits sum.splits prod.splits)

section \<open>Properties of resolution\<close>

lemma counts_simps [simp]:
  "counts [] = []" "counts (e # es) = counted e @ counts es"
  "counts (xs @ ys) = counts xs @ counts ys"
  by (simp_all add: counts_def)

lemma reads_simps [simp]:
  "reads [] = []" "reads (e # es) = read_of e @ reads es"
  "reads (xs @ ys) = reads xs @ reads ys"
  by (simp_all add: reads_def)

lemma zeros_simps [simp]:
  "zeros [] = []" "zeros (l # ls) = (l, Inr 0) # zeros ls" "zeros (xs @ ys) = zeros xs @ zeros ys"
  "map fst (zeros ls) = ls"
  by (simp_all add: zeros_def comp_def)




lemma raised_last_append: "raised_last e2 e \<Longrightarrow> raised_last (e1 @ e2) e"
  by (simp add: raised_last_def)

lemma raised_last_Cons: "raised_last e2 e \<Longrightarrow> raised_last (x # e2) e"
  by (simp add: raised_last_def)


































lemma yields_otherwise:
  assumes "yields (\<lambda>r. case r of None \<Rightarrow> True | Some x \<Rightarrow> P x) m" and "yields P k"
  shows "yields P (otherwise m k)"
  using assms unfolding yields_def otherwise_def bind_io_def return_io_def
  by (auto split: prod.splits sum.splits option.splits) fastforce+

lemma short_try_selector: "yields short_text (try_selector env q)"
  unfolding yields_def try_selector_def short_text_def Let_def
  by (auto simp add: bind_io_def count_def tag_name_def inner_text_def return_io_def
      split: if_splits sum.splits prod.splits)

lemma short_try_roles: "yields short_text (try_roles env q rs)"
proof (induction rs)
  case Nil
  show ?case by (simp add: yields_def return_io_def short_text_def)
next
  case (Cons r rs)
  then show ?case
    unfolding yields_def short_text_def
    by (auto simp add: bind_io_def count_def tag_name_def inner_text_def return_io_def
        split: if_splits sum.splits prod.splits)
qed

lemma short_try_label: "yields short_text (try_label env q)"
  unfolding yields_def try_label_def short_text_def
  by (auto simp add: bind_io_def count_def tag_name_def return_io_def
      split: if_splits sum.splits prod.splits)

lemma short_try_placeholder: "yields short_text (try_placeholder env q)"
  unfolding yields_def try_placeholder_def short_text_def
  by (auto simp add: bind_io_def count_def tag_name_def return_io_def
      split: if_splits sum.splits prod.splits)

lemma short_try_text: "yields short_text (try_text env q)"
  unfolding yields_def try_text_def short_text_def
  by (auto simp add: bind_io_def count_def tag_name_def inner_text_def return_io_def
      split: if_splits sum.splits prod.splits)

lemma short_try_attr: "yields short_text (try_attr env q)"
  unfolding yields_def try_attr_def short_text_def Let_def
  by (auto simp add: bind_io_def count_def tag_name_def inner_text_def return_io_def
      split: if_splits sum.splits prod.splits)

lemma yields_not_found:
  "yields P (bind_io (get_available_interactive env 15)
        (\<lambda>available. raise_io (ElementNotFoundError q available)))"
  unfolding yields_def bind_io_def raise_io_def
  by (auto split: prod.splits sum.splits)

text \<open>The text of a found element has at most 100 characters, whatever the strategy.\<close>

lemma found_text_at_most_100:
  assumes "find_element env q c h = (Inr el, evs)"
  shows "length (el_text el) \<le> 100"
proof -
  have "yields (\<lambda>el. length (el_text el) \<le> 100) (find_element_body env q)"
    unfolding find_element_body_def
    by (intro yields_otherwise yields_not_found
        short_try_selector [unfolded short_text_def] short_try_roles [unfolded short_text_def]
        short_try_label [unfolded short_text_def] short_try_placeholder [unfolded short_text_def]
        short_try_text [unfolded short_text_def] short_try_attr [unfolded short_text_def])
  moreover have "find_element_body env q (h @ [Enter q]) = (Inr el, tl evs)"
    using assms by (auto simp add: find_element_unfold) (metis prod.collapse)
  ultimately show ?thesis unfolding yields_def by blast
qed

text \<open>
  C7. The bound of 100 characters holds (lemma \<open>found_text_at_most_100\<close>), but
  the text is not always empty for an input-like tag: blocks 1 and 6 of
  \<^verbatim>\<open>find_element\<close> skip \<^verbatim>\<open>inner_text\<close> for input, select and textarea, while
  block 2 (role) and block 5 (free text) read it whatever the tag. On the page
  with the textarea that is not rendered, the query "Notes" is resolved by
  block 5 to the textarea and its content is returned as display text.
\<close>

theorem textarea_text_surfaced:
  "fst (find_element textarea_env ''Notes'' (Some default_retry) []) =
     Inr \<lparr>locator = Nth (ByText ''Notes'') 0, tag = ''textarea'',
          el_text = ''Notes for the courier'', role = None, label = None\<rparr> \<and>
   input_like ''textarea''"
  by code_simp

section \<open>Properties of the retry loop\<close>

lemma attempts_simps [simp]:
  "attempts [] = []" "attempts (e # es) = entered e @ attempts es"
  "attempts (xs @ ys) = attempts xs @ attempts ys"
  by (simp_all add: attempts_def)

lemma sleeps_simps [simp]:
  "sleeps [] = []" "sleeps (e # es) = slept e @ sleeps es"
  "sleeps (xs @ ys) = sleeps xs @ sleeps ys"
  by (simp_all add: sleeps_def)







section \<open>Properties of form filling\<close>

text \<open>
  C6. When the element found for a label is an input (or textarea) whose
  \<^verbatim>\<open>type\<close> attribute reads \<^verbatim>\<open>checkbox\<close> and whose checked state reads
  \<open>checked\<close>, the value counts as truthy exactly when its lower-case form is one
  of "true", "yes", "1", "on", and handling the field clicks the checkbox once
  when that differs from \<open>checked\<close> and not at all when it is equal; nothing
  else is clicked.
\<close>

theorem checkbox_toggle:
  assumes fe: "find_element env lbl (Some retry) h = (Inr el, evs)"
    and tg: "tag el = ''input'' \<or> tag el = ''textarea''"
    and ty: "attribute_of (env (h @ evs)) (locator el) ''type'' = Inr (Some ''checkbox'')"
    and ch: "checked_of (env (h @ evs @ [GetAttribute (locator el) ''type'' (Inr (Some ''checkbox''))]))
           (locator el) = Inr checked"
  shows "should_check val = (lower val \<in> {''true'', ''yes'', ''1'', ''on''}) \<and>
         clicks (snd (fill_field env retry stealth (lbl, val) h)) =
           (if checked \<noteq> should_check val then [locator el] else [])"
proof -
  have c1: "clicks evs = []" using fe by (rule clicks_find_element)
  have c3: "\<And>h' r es. random_delay env stealth h' = (r, es) \<Longrightarrow> clicks es = []"
    by (rule clicks_random_delay)
  from tg have t: "tag el \<noteq> ''select''" by auto
  have ga: "get_attribute env (locator el) ''type'' (h @ evs) =
      (Inr (Some ''checkbox''), [GetAttribute (locator el) ''type'' (Inr (Some ''checkbox''))])"
    by (simp add: get_attribute_def ty)
  have ic: "is_checked env (locator el)
       (h @ evs @ [GetAttribute (locator el) ''type'' (Inr (Some ''checkbox''))]) =
      (Inr checked, [IsChecked (locator el) (Inr checked)])"
    by (simp add: is_checked_def ch)
  have "clicks (snd (fill_field env retry stealth (lbl, val) h)) =
           (if checked \<noteq> should_check val then [locator el] else [])"
  proof (cases "checked = should_check val")
    case True
    then show ?thesis
      using tg t c1 c3
      by (simp add: fill_field_def bind_io_def fe ga ic return_io_def or_default_def
          split: prod.splits sum.splits)
  next
    case False
    then show ?thesis
      using tg t c1 c3
      by (simp add: fill_field_def bind_io_def fe ga ic return_io_def or_default_def perform_def
          split: prod.splits sum.splits)
  qed
  then show ?thesis by (simp add: should_check_def)
qed

text \<open>
  The three cases of the specification on the page with the "Subscribe"
  checkbox: unchecked and "yes" gives one click, checked and "false" gives one
  click, checked and "yes" gives none.
\<close>

theorem checkbox_toggle_witness:
  "fst (find_element (checkbox_env False) ''Subscribe'' (Some default_retry) []) = Inr subscribe_box \<and>
   clicks (snd (fill_field (checkbox_env False) default_retry default_stealth
                  (''Subscribe'', ''yes'') [])) = [Nth (ByLabel ''Subscribe'') 0] \<and>
   clicks (snd (fill_field (checkbox_env True) default_retry default_stealth
                  (''Subscribe'', ''false'') [])) = [Nth (ByLabel ''Subscribe'') 0] \<and>
   clicks (snd (fill_field (checkbox_env True) default_retry default_stealth
                  (''Subscribe'', ''yes'') [])) = []"
proof -
  have f: "fst (find_element (checkbox_env c) ''Subscribe'' (Some default_retry) []) = Inr subscribe_box"
    for c
    by (simp add: find_element_def find_element_body_def bind_io_def emit_def otherwise_def
        try_selector_def try_label_def count_def tag_name_def return_io_def checkbox_env_def
        checkbox_world_def blank_world_def subscribe_box_def or_default_def
        looks_like_selector_def sublist_code)
  have fe: "find_element (checkbox_env c) ''Subscribe'' (Some default_retry) [] =
      (Inr subscribe_box, snd (find_element (checkbox_env c) ''Subscribe'' (Some default_retry) []))"
    for c
    using f [of c] by (metis prod.collapse)
  have tg: "tag subscribe_box = ''input'' \<or> tag subscribe_box = ''textarea''"
    by (simp add: subscribe_box_def)
  have ty: "attribute_of (checkbox_env c ([] @ evs)) (locator subscribe_box) ''type'' =
      Inr (Some ''checkbox'')" for c evs
    by (simp add: checkbox_env_def checkbox_world_def blank_world_def)
  have ch: "checked_of (checkbox_env c ([] @ evs @
      [GetAttribute (locator subscribe_box) ''type'' (Inr (Some ''checkbox''))]))
      (locator subscribe_box) = Inr c" for c evs
    by (simp add: checkbox_env_def checkbox_world_def blank_world_def)
  have y: "should_check ''yes''" by code_simp
  have n: "\<not> should_check ''false''" by code_simp
  show ?thesis
    using f [of False]
      checkbox_toggle [OF fe [of False] tg ty [of False] ch [of False],
        where stealth = default_stealth and val = "''yes''"]
      checkbox_toggle [OF fe [of True] tg ty [of True] ch [of True],
        where stealth = default_stealth and val = "''false''"]
      checkbox_toggle [OF fe [of True] tg ty [of True] ch [of True],
        where stealth = default_stealth and val = "''yes''"]
      y n
    by (simp add: subscribe_box_def)
qed

text \<open>A failed lookup ends the handling of a field at once, whatever the retry policy.\<close>

lemma fill_field_no_retry:
  "find_element env lbl (Some retry) h = (Inl e, evs) \<Longrightarrow>
     fill_field env retry stealth (lbl, val) h = (Inl e, evs)"
  by (simp add: fill_field_def bind_io_def)

text \<open>
  C5. \<^verbatim>\<open>fill_form\<close> takes the retry policy but looks each label up with one call
  of \<^verbatim>\<open>find_element\<close>, which ignores the policy. On the page where the
  "Subscribe" checkbox is attached after two pauses, with the default policy of
  three attempts one second apart, \<^verbatim>\<open>_with_retry\<close> finds the checkbox, but
  \<^verbatim>\<open>fill_form\<close> raises \<^verbatim>\<open>ElementNotFoundError\<close> after a single attempt and
  no pause.
\<close>

theorem fill_form_single_attempt:
  "fst (fill_form late_env [(''Subscribe'', ''yes'')] False default_retry default_stealth []) =
     Inl (ElementNotFoundError ''Subscribe'' []) \<and>
   attempts (snd (fill_form late_env [(''Subscribe'', ''yes'')] False default_retry default_stealth [])) =
     [''Subscribe''] \<and>
   sleeps (snd (fill_form late_env [(''Subscribe'', ''yes'')] False default_retry default_stealth [])) = [] \<and>
   fst (with_retry late_env ''Subscribe'' default_retry []) = Inr subscribe_box"
  by code_simp

section \<open>Properties of replay\<close>

lemma invokes_simps [simp]:
  "invokes [] = []" "invokes (e # es) = invoked e @ invokes es"
  "invokes (xs @ ys) = invokes xs @ invokes ys"
  by (simp_all add: invokes_def)

lemma from_dict_inverse: "from_dict (to_dict a) = Inr a"
  by (simp add: from_dict_def to_dict_def dict_get_def)

lemma from_dicts_inverse: "from_dicts (map to_dict as) = Inr as"
  by (induction as) (simp_all add: from_dict_inverse)

lemma recorder_load_stored:
  "recording_of (env h) name = Inr (Some (map to_dict acts)) \<Longrightarrow>
     recorder_load env name h = (Inr acts, [LoadRecording name (Inr (Some (map to_dict acts)))])"
  by (simp add: recorder_load_def bind_io_def load_recording_def from_dicts_inverse return_io_def)

lemma replay_loop_skip:
  "action a = PStr n \<Longrightarrow> getattr_agent inh n = None \<Longrightarrow>
     replay_loop env inh (a # rest) = replay_loop env inh rest"
  by simp

lemma replay_loop_invokes:
  "replay_loop env inh acts h = (r, evs) \<Longrightarrow>
     prefix (invokes evs) (concat (map (dispatched inh) acts)) \<and>
     (r = Inr () \<longrightarrow> invokes evs = concat (map (dispatched inh) acts))"
proof (induction acts arbitrary: h r evs)
  case Nil
  then show ?case by (simp add: return_io_def)
next
  case (Cons a acts)
  show ?case
  proof (cases "action a")
    case (PStr name)
    show ?thesis
    proof (cases "getattr_agent inh name")
      case None
      with Cons PStr show ?thesis by (simp add: dispatched_def split: pyval.splits)
    next
      case (Some kind)
      show ?thesis
      proof (cases "\<exists>kw. args a = PDict kw \<and> (kind = AsyncMethod \<or> kind = SyncMethod)")
        case False
        with Cons.prems PStr Some show ?thesis
          by (cases kind; cases "args a")
            (auto simp add: dispatched_def bind_io_def raise_io_def ensure_started_def
              split: if_splits)
      next
        case True
        then obtain kw where kw: "args a = PDict kw" and m: "kind = AsyncMethod \<or> kind = SyncMethod"
          by blast
        define aw where "aw = (kind = AsyncMethod)"
        have d: "dispatched inh a = [(name, kw, aw)]"
          using PStr Some kw m by (auto simp add: dispatched_def aw_def)
        have run: "bind_io (invoke env name kw aw) (\<lambda>_. replay_loop env inh acts) h = (r, evs)"
          using Cons.prems PStr Some kw m by (auto simp add: aw_def)
        show ?thesis
        proof (cases "invoke_of (env h) name kw")
          case (Inl e)
          with run d show ?thesis by (auto simp add: bind_io_def invoke_def)
        next
          case (Inr u)
          obtain r2 e2 where l: "replay_loop env inh acts (h @ [Invoke name kw aw (Inr u)]) = (r2, e2)"
            by (cases "replay_loop env inh acts (h @ [Invoke name kw aw (Inr u)])")
          from run Inr l have "r = r2" "evs = Invoke name kw aw (Inr u) # e2"
            by (simp_all add: bind_io_def invoke_def)
          with Cons.IH [OF l] d show ?thesis by simp
        qed
      qed
    qed
  qed (use Cons.prems in \<open>auto simp add: dispatched_def raise_io_def\<close>)
qed

text \<open>
  C4, as the claim states it, fails: dispatch is by reflection. Replaying a
  recording that names \<^verbatim>\<open>_ensure_started\<close> calls this private method, which
  is none of the verbs the agent records; and a recording that names the field
  \<^verbatim>\<open>_started\<close>, no verb either, is not skipped but ends in a \<^verbatim>\<open>TypeError\<close>.
\<close>

theorem replay_reflection_counterexample:
  "fst (replay replay_env no_inherited ''private'' []) = Inr () \<and>
   invokes (snd (replay replay_env no_inherited ''private'' [])) =
     [(''_ensure_started'', [], False)] \<and>
   ''_ensure_started'' \<notin> set recorded_verbs \<and>
   fst (replay replay_env no_inherited ''field'' []) = Inl TypeError \<and>
   ''_started'' \<notin> set recorded_verbs"
  by code_simp

lemma fate_Skipped:
  "fate_of inh a = Skipped \<Longrightarrow>
     replay_loop env inh (a # acts) h = replay_loop env inh acts h \<and> dispatched inh a = []"
  by (auto simp add: fate_of_def dispatched_def split: pyval.splits option.splits attr.splits)

lemma fate_Rejected:
  "fate_of inh a = Rejected \<Longrightarrow>
     (\<exists>e. replay_loop env inh (a # acts) h = (Inl e, []) \<and>
          (e = TypeError \<or> e = BrowserNotStartedError)) \<and> dispatched inh a = []"
  by (auto simp add: fate_of_def dispatched_def raise_io_def bind_io_def ensure_started_def
      split: pyval.splits option.splits attr.splits)

lemma fate_Called:
  "fate_of inh a = Called (n, kw, aw) \<Longrightarrow>
     replay_loop env inh (a # acts) h =
       bind_io (invoke env n kw aw) (\<lambda>_. replay_loop env inh acts) h \<and>
     dispatched inh a = [(n, kw, aw)]"
  by (auto simp add: fate_of_def dispatched_def split: pyval.splits option.splits attr.splits)

lemma stopped_at_Suc:
  assumes "stopped_at inh acts k e evs" and "callable inh a"
    and "invokes pre = dispatched inh a"
  shows "stopped_at inh (a # acts) (Suc k) e (pre @ evs)"
  using assms unfolding stopped_at_def
  by (auto intro: raised_last_append)

text \<open>
  How the loop ends: when it completes, every action was skipped or called and
  no call raised; when it raises, it stopped at one of the actions.
\<close>

lemma replay_loop_ends:
  "replay_loop env inh acts h = (r, evs) \<Longrightarrow>
     (r = Inr () \<longrightarrow> list_all (callable inh) acts \<and> (\<forall>ev\<in>set evs. reply_error ev = None)) \<and>
     (\<forall>e. r = Inl e \<longrightarrow> (\<exists>k. stopped_at inh acts k e evs))"
proof (induction acts arbitrary: h r evs)
  case Nil
  then show ?case by (auto simp add: return_io_def)
next
  case (Cons a acts)
  show ?case
  proof (cases "fate_of inh a")
    case Skipped
    note s = fate_Skipped [OF Skipped, of env acts h]
    from Cons.prems s have run: "replay_loop env inh acts h = (r, evs)" by simp
    have c: "callable inh a" using Skipped by (simp add: callable_def)
    have "\<forall>e. r = Inl e \<longrightarrow> (\<exists>k. stopped_at inh (a # acts) k e evs)"
    proof (intro allI impI)
      fix e
      assume "r = Inl e"
      with Cons.IH [OF run] obtain k where "stopped_at inh acts k e evs" by blast
      from stopped_at_Suc [OF this c, of "[]"] s
      show "\<exists>k. stopped_at inh (a # acts) k e evs" by auto
    qed
    with Cons.IH [OF run] c show ?thesis by simp
  next
    case Rejected
    from fate_Rejected [OF Rejected, of env acts h] Cons.prems obtain e where
      e: "r = Inl e" "evs = []" "e = TypeError \<or> e = BrowserNotStartedError" by auto
    have "stopped_at inh (a # acts) 0 e []"
      unfolding stopped_at_def using Rejected e(3) by simp
    with e show ?thesis by auto
  next
    case (Called c)
    obtain n kw aw where c: "c = (n, kw, aw)" by (cases c)
    note s = fate_Called [OF Called [unfolded c], of env acts h]
    have ca: "callable inh a" using Called by (simp add: callable_def)
    show ?thesis
    proof (cases "invoke_of (env h) n kw")
      case (Inl e)
      with Cons.prems s have e: "r = Inl e" "evs = [Invoke n kw aw (Inl e)]"
        by (simp_all add: bind_io_def invoke_def)
      have "stopped_at inh (a # acts) 0 e [Invoke n kw aw (Inl e)]"
        unfolding stopped_at_def using Called c by (simp add: raised_last_def)
      with e show ?thesis by auto
    next
      case (Inr u)
      let ?ev = "Invoke n kw aw (Inr u)"
      obtain r2 e2 where l: "replay_loop env inh acts (h @ [?ev]) = (r2, e2)"
        by (cases "replay_loop env inh acts (h @ [?ev])")
      from Cons.prems s Inr l have e: "r = r2" "evs = [?ev] @ e2"
        by (simp_all add: bind_io_def invoke_def)
      have "\<forall>x. r = Inl x \<longrightarrow> (\<exists>k. stopped_at inh (a # acts) k x evs)"
      proof (intro allI impI)
        fix x
        assume "r = Inl x"
        with Cons.IH [OF l] e obtain k where "stopped_at inh acts k x e2" by blast
        from stopped_at_Suc [OF this ca, of "[?ev]"] s e
        show "\<exists>k. stopped_at inh (a # acts) k x evs" by auto
      qed
      with Cons.IH [OF l] e ca show ?thesis by simp
    qed
  qed
qed

text \<open>
  C4, amended. \<^verbatim>\<open>replay\<close> looks each recorded name up with \<^verbatim>\<open>getattr\<close>
  among all attributes of the agent; there is no table of verbs. A recorded
  action whose name is not an attribute is skipped: the loop goes on as if the
  entry were not there, with no call and no error. For a loaded recording, the
  calls made are, in recorded order and with the stored arguments as keyword
  arguments, the calls of the recorded actions whose name is a method of the
  agent, each coroutine method awaited before the loop goes on. When the replay
  completes, all of them were made, none raised, and every entry was skipped or
  called. When it raises, it stopped at one entry: every method recorded before
  that entry was called, and the entry itself either was called too, as the
  last call, which raised the exception of the replay, or could not be called
  (its name is no string or no method, or its arguments are no dict), in which
  case no call was made for it.
\<close>

theorem replay_dispatch:
  "(action a = PStr n \<and> getattr_agent inh n = None \<longrightarrow>
      replay_loop env inh (a # rest) h = replay_loop env inh rest h) \<and>
   (started_of (env h) \<and> recording_of (env h) name = Inr (Some (map to_dict acts)) \<and>
    replay env inh name h = (r, evs) \<longrightarrow>
      prefix (invokes evs) (concat (map (dispatched inh) acts)) \<and>
      (r = Inr () \<longrightarrow>
         invokes evs = concat (map (dispatched inh) acts) \<and>
         list_all (callable inh) acts \<and> (\<forall>ev\<in>set evs. reply_error ev = None)) \<and>
      (\<forall>e. r = Inl e \<longrightarrow>
         (\<exists>k<length acts. list_all (callable inh) (take k acts) \<and>
            ((\<exists>c. fate_of inh (acts ! k) = Called c \<and>
                  invokes evs = concat (map (dispatched inh) (take k acts)) @ [c] \<and>
                  raised_last evs e) \<or>
             (fate_of inh (acts ! k) = Rejected \<and>
              invokes evs = concat (map (dispatched inh) (take k acts)) \<and>
              (e = TypeError \<or> e = BrowserNotStartedError))))))"
  (is "?skip \<and> (?given \<longrightarrow> ?order \<and> ?done \<and> ?stop)")
proof -
  have skip: ?skip by (simp add: replay_loop_skip)
  have main: "?order \<and> ?done \<and> ?stop" if a: ?given
  proof -
    let ?ld = "LoadRecording name (Inr (Some (map to_dict acts)))"
    obtain r2 e2 where l: "replay_loop env inh acts (h @ [?ld]) = (r2, e2)"
      by (cases "replay_loop env inh acts (h @ [?ld])")
    from a have st: "started_of (env h)"
      and rc: "recording_of (env h) name = Inr (Some (map to_dict acts))"
      and run: "replay env inh name h = (r, evs)" by simp_all
    from run l have e: "r = r2" "evs = [?ld] @ e2"
      by (simp_all add: replay_def bind_io_def ensure_started_def st
          recorder_load_stored [of env h name acts, OF rc])
    note ends = replay_loop_ends [OF l]
    have p1: ?order using replay_loop_invokes [OF l] e by simp
    have p2: ?done using replay_loop_invokes [OF l] ends e by simp
    have p3: ?stop
    proof (intro allI impI)
      fix x
      assume "r = Inl x"
      with ends e obtain k where "stopped_at inh acts k x e2" by blast
      then have "stopped_at inh acts k x ([?ld] @ e2)"
        unfolding stopped_at_def by (auto simp add: raised_last_Cons)
      then show "\<exists>k<length acts. list_all (callable inh) (take k acts) \<and>
            ((\<exists>c. fate_of inh (acts ! k) = Called c \<and>
                  invokes evs = concat (map (dispatched inh) (take k acts)) @ [c] \<and>
                  raised_last evs x) \<or>
             (fate_of inh (acts ! k) = Rejected \<and>
              invokes evs = concat (map (dispatched inh) (take k acts)) \<and>
              (x = TypeError \<or> x = BrowserNotStartedError)))"
        unfolding stopped_at_def e by blast
    qed
    from p1 p2 p3 show ?thesis by blast
  qed
  from skip main show ?thesis by blast
qed

theorem replay_dispatch_witness:
  "action drag_action = PStr ''drag'' \<and> getattr_agent no_inherited ''drag'' = None \<and>
   replay_loop replay_env no_inherited (drag_action # [type_action]) [] =
     replay_loop replay_env no_inherited [type_action] [] \<and>
   started_of (replay_env []) \<and>
   recording_of (replay_env []) ''demo'' = Inr (Some (map to_dict demo_actions)) \<and>
   fst (replay replay_env no_inherited ''demo'' []) = Inr () \<and>
   invokes (snd (replay replay_env no_inherited ''demo'' [])) =
     [(''goto'', [(''url'', PStr ''https://example.com/'')], True),
      (''type'', [(''query'', PStr ''Email''), (''text'', PStr ''x'')], True)] \<and>
   recording_of (replay_env []) ''stale'' = Inr (Some (map to_dict stale_actions)) \<and>
   fst (replay replay_env no_inherited ''stale'' []) = Inl (ElementNotFoundError ''Gone'' []) \<and>
   invokes (snd (replay replay_env no_inherited ''stale'' [])) =
     [(''goto'', [(''url'', PStr ''https://example.com/'')], True),
      (''click'', [(''query'', PStr ''Gone'')], True)] \<and>
   raised_last (snd (replay replay_env no_inherited ''stale'' [])) (ElementNotFoundError ''Gone'' [])"
proof -
  have a: "action drag_action = PStr ''drag'' \<and> getattr_agent no_inherited ''drag'' = None"
    by code_simp
  have s: "started_of (replay_env [])"
    by (simp add: replay_env_def replay_world_def blank_world_def)
  have rc: "recording_of (replay_env []) ''demo'' = Inr (Some (map to_dict demo_actions))"
    by (simp add: replay_env_def replay_world_def stored_recordings_def)
  have rc2: "recording_of (replay_env []) ''stale'' = Inr (Some (map to_dict stale_actions))"
    by (simp add: replay_env_def replay_world_def stored_recordings_def)
  have f: "fst (replay replay_env no_inherited ''demo'' []) = Inr ()" by code_simp
  have f2: "fst (replay replay_env no_inherited ''stale'' []) = Inl (ElementNotFoundError ''Gone'' [])"
    by code_simp
  have d: "concat (map (dispatched no_inherited) demo_actions) =
     [(''goto'', [(''url'', PStr ''https://example.com/'')], True),
      (''type'', [(''query'', PStr ''Email''), (''text'', PStr ''x'')], True)]"
    by code_simp
  have i2: "invokes (snd (replay replay_env no_inherited ''stale'' [])) =
     [(''goto'', [(''url'', PStr ''https://example.com/'')], True),
      (''click'', [(''query'', PStr ''Gone'')], True)]"
    by code_simp
  have l2: "raised_last (snd (replay replay_env no_inherited ''stale'' []))
      (ElementNotFoundError ''Gone'' [])"
    by code_simp
  have run: "replay replay_env no_inherited ''demo'' [] =
      (Inr (), snd (replay replay_env no_inherited ''demo'' []))"
    using f by (metis prod.collapse)
  have run2: "replay replay_env no_inherited ''stale'' [] =
      (Inl (ElementNotFoundError ''Gone'' []), snd (replay replay_env no_inherited ''stale'' []))"
    using f2 by (metis prod.collapse)
  show ?thesis
    using a s rc rc2 f f2 d i2 l2 run run2
      replay_dispatch [of drag_action "''drag''" no_inherited replay_env "[type_action]" "[]"
        "''demo''" demo_actions "Inr ()" "snd (replay replay_env no_inherited ''demo'' [])"]
      replay_dispatch [of drag_action "''drag''" no_inherited replay_env "[type_action]" "[]"
        "''stale''" stale_actions "Inl (ElementNotFoundError ''Gone'' [])"
        "snd (replay replay_env no_inherited ''stale'' [])"]
    by simp
qed

end
